theory Spec2Isabelle
  imports Main
begin

section \<open>JavaScript values\<close>

text \<open>
  Primitive values. Numbers are left out: no function of the two source files computes
  with one.
\<close>

datatype prim = Undefined | Null | Boolean bool | Str string

text \<open>
  A value held in a field of a topic instance or in an attribute, or a response of the
  provider. \<open>Object r c\<close> is an object that is not an array, a policy document for one:
  \<open>r\<close> is its reference, which \<open>===\<close> and \<open>!==\<close> compare, and \<open>c\<close> its contents in a
  canonical form, which the deep \<open>equals\<close> compares.
\<close>

datatype jsval = Prim prim | Object nat string

fun truthy_prim :: "prim \<Rightarrow> bool" where
  "truthy_prim Undefined = False"
| "truthy_prim Null = False"
| "truthy_prim (Boolean b) = b"
| "truthy_prim (Str s) = (s \<noteq> [])"

fun truthy :: "jsval \<Rightarrow> bool" where
  "truthy (Prim p) = truthy_prim p"
| "truthy (Object r c) = True"

fun isNil :: "jsval \<Rightarrow> bool" where
  "isNil (Prim Undefined) = True"
| "isNil (Prim Null) = True"
| "isNil v = False"

text \<open>\<open>a === b\<close>: objects by reference, primitives by value.\<close>

fun strict_eq :: "jsval \<Rightarrow> jsval \<Rightarrow> bool" where
  "strict_eq (Object r c) (Object r' c') = (r = r')"
| "strict_eq a b = (a = b)"

text \<open>\<open>equals(a, b)\<close>: deep equality, objects by contents.\<close>

fun equals :: "jsval \<Rightarrow> jsval \<Rightarrow> bool" where
  "equals (Object r c) (Object r' c') = (c = c')"
| "equals a b = (a = b)"

text \<open>
  A plain object literal such as \<open>{ displayName: 'Orders' }\<close>: its own properties in
  insertion order. \<open>keys\<close>, \<open>values\<close> and \<open>head\<close> are the helpers of that name;
  \<open>head\<close> of an empty list is \<open>undefined\<close>, here \<open>None\<close>.
\<close>

type_synonym obj = "(string \<times> jsval) list"

definition keys_of :: "obj \<Rightarrow> string list" where
  "keys_of item = map fst item"

definition values_of :: "obj \<Rightarrow> jsval list" where
  "values_of item = map snd item"

definition head :: "'a list \<Rightarrow> 'a option" where
  "head xs = (case xs of [] \<Rightarrow> None | x # _ \<Rightarrow> Some x)"

text \<open>A value that may be \<open>undefined\<close>, as a value.\<close>

definition orUndefined :: "jsval option \<Rightarrow> jsval" where
  "orUndefined v = (case v of None \<Rightarrow> Prim Undefined | Some x \<Rightarrow> x)"

text \<open>The name of a computed property \<open>{ [key]: ... }\<close>.\<close>

definition propertyKey :: "string option \<Rightarrow> string" where
  "propertyKey key = (case key of None \<Rightarrow> ''undefined'' | Some k \<Rightarrow> k)"

definition contains :: "'a \<Rightarrow> 'a list \<Rightarrow> bool" where
  "contains x xs = (x \<in> set xs)"

text \<open>
  Deep equality of two plain objects: as many properties, and every property of the one
  is a property of the other with a deeply equal value.
\<close>

definition equals_obj :: "obj \<Rightarrow> obj \<Rightarrow> bool" where
  "equals_obj a b =
     (length a = length b \<and>
      list_all (\<lambda>(k, v). list_ex (\<lambda>(k', w). k = k' \<and> equals v w) b) a)"

section \<open>The topic component: attribute diff\<close>

text \<open>
  \<open>concatInputsAndState(inputs, state = [])\<close>, lines 49 to 68. Both arguments are
  arrays of objects, each with a single property wherever the program builds them; the
  default of the second one applies when it is \<open>undefined\<close>, here \<open>None\<close>. \<open>reduce\<close> is a left fold, \<open>concat\<close> appends,
  \<open>find\<close> returns the first match or \<open>undefined\<close>, which alone is nil among its results.
\<close>

definition concatInputsAndState :: "obj list \<Rightarrow> obj list option \<Rightarrow> obj list" where
  "concatInputsAndState inputs state_arg =
     (let state = (case state_arg of None \<Rightarrow> [] | Some s \<Rightarrow> s);
          attributeKeys = map (\<lambda>item. head (keys_of item)) inputs
      in filter (\<lambda>item. find (equals_obj item) state = None)
           (inputs @
            foldl (\<lambda>attributes attribute.
                     let key = head (keys_of attribute)
                     in if \<not> contains key attributeKeys
                        then attributes @ [[(propertyKey key, Prim (Str ''''))]]
                        else attributes)
              [] state))"

section \<open>The topic component: provider calls\<close>

text \<open>
  The provider SDK is outside the repository. What the component does to it is a trace:
  the requests it sends and the lines it logs, in order. A client \<open>sns\<close> answers a
  request from the trace so far, with a rejection or a response: \<open>createTopic\<close> with the
  response's \<open>TopicArn\<close>, \<open>setTopicAttributes\<close> with the response, an object.
\<close>

datatype error = TypeError | ProviderError string

text \<open>
  \<open>AttributeValue\<close>, lines 134 and 150: a string as it is, any other value through
  \<open>JSON.stringify\<close>, which stays symbolic.
\<close>

datatype attr_value = Verbatim string | Stringified jsval

datatype message =
  UpdatingTopic jsval | TopicUpdated jsval | CreatingTopic jsval | TopicCreated jsval

datatype event =
  CreateTopic jsval
| SetTopicAttributes jsval string attr_value
| Log message

type_synonym trace = "event list"

record sns =
  onCreateTopic :: "trace \<Rightarrow> jsval \<Rightarrow> error + jsval"
  onSetTopicAttributes :: "trace \<Rightarrow> jsval \<Rightarrow> string \<Rightarrow> attr_value \<Rightarrow> error + jsval"

text \<open>
  An asynchronous computation: run on the trace so far, it rejects or resolves, and
  leaves the trace extended by what it did. \<open>Promise_then p f\<close> is \<open>p.then(f)\<close> and
  \<open>const v = await p; f v\<close>: \<open>f\<close> runs once \<open>p\<close> has resolved, and not at all when \<open>p\<close>
  rejects.
\<close>

type_synonym 'a promise = "trace \<Rightarrow> (error + 'a) \<times> trace"

definition Promise_resolve :: "'a \<Rightarrow> 'a promise" where
  "Promise_resolve v = (\<lambda>t. (Inr v, t))"

definition Promise_reject :: "error \<Rightarrow> 'a promise" where
  "Promise_reject e = (\<lambda>t. (Inl e, t))"

definition Promise_then :: "'a promise \<Rightarrow> ('a \<Rightarrow> 'b promise) \<Rightarrow> 'b promise" where
  "Promise_then p f =
     (\<lambda>t. case p t of (Inl e, t') \<Rightarrow> (Inl e, t') | (Inr v, t') \<Rightarrow> f v t')"

definition context_log :: "message \<Rightarrow> unit promise" where
  "context_log m = (\<lambda>t. (Inr (), t @ [Log m]))"

text \<open>\<open>sns.createTopic({ Name }).promise()\<close> and \<open>sns.setTopicAttributes(params).promise()\<close>.\<close>

definition createTopic :: "sns \<Rightarrow> jsval \<Rightarrow> jsval promise" where
  "createTopic client Name = (\<lambda>t. (onCreateTopic client t Name, t @ [CreateTopic Name]))"

definition setTopicAttributes :: "sns \<Rightarrow> jsval \<times> string \<times> attr_value \<Rightarrow> jsval promise" where
  "setTopicAttributes client params =
     (case params of (TopicArn, AttributeName, AttributeValue) \<Rightarrow>
        (\<lambda>t. (onSetTopicAttributes client t TopicArn AttributeName AttributeValue,
              t @ [SetTopicAttributes TopicArn AttributeName AttributeValue])))"

text \<open>\<open>capitalize\<close>, line 20, on ASCII letters.\<close>

definition toUpperCase :: "char \<Rightarrow> char" where
  "toUpperCase c =
     (case map_of (zip ''abcdefghijklmnopqrstuvwxyz'' ''ABCDEFGHIJKLMNOPQRSTUVWXYZ'') c of
        None \<Rightarrow> c
      | Some u \<Rightarrow> u)"

definition capitalize :: "string \<Rightarrow> string" where
  "capitalize string = (case string of [] \<Rightarrow> [] | c # cs \<Rightarrow> toUpperCase c # cs)"

text \<open>
  The request parameters of one attribute, lines 130 to 135 and again 146 to 151. An
  attribute with no property has the key \<open>undefined\<close>, and \<open>capitalize\<close> of it throws.
\<close>

definition attributeParams ::
  "jsval \<Rightarrow> obj \<Rightarrow> error + jsval \<times> string \<times> attr_value" where
  "attributeParams topicArn topicAttribute =
     (let v = orUndefined (head (values_of topicAttribute))
      in case head (keys_of topicAttribute) of
           None \<Rightarrow> Inl TypeError
         | Some key \<Rightarrow>
             Inr (topicArn, capitalize key,
                  (case v of Prim (Str s) \<Rightarrow> Verbatim s | _ \<Rightarrow> Stringified v)))"

section \<open>The topic component: update executors\<close>

text \<open>
  What an operation handed to \<open>resolveInSequence\<close> resolves to: an array, or a value
  that is not one. \<open>Array.prototype.concat.bind(result)\<close>, applied to the resolved value,
  appends a value that is not an array and splices an array's elements in.
\<close>

datatype res = Value jsval | Array "res list"

definition array_concat :: "res list \<Rightarrow> res \<Rightarrow> res list" where
  "array_concat result v = (case v of Array xs \<Rightarrow> result @ xs | Value _ \<Rightarrow> result @ [v])"

text \<open>
  Modelled from the spec: \<open>reduce\<close> comes from the utility library, which is not among
  the source files. Section 1 of the specification has it as a standard collection
  operation: a left fold, which hands the accumulator to the callback as it is, also
  when the accumulator is a promise.
\<close>

definition reduce :: "('b \<Rightarrow> 'a \<Rightarrow> 'b) \<Rightarrow> 'b \<Rightarrow> 'a list \<Rightarrow> 'b" where
  "reduce f acc xs = foldl f acc xs"

text \<open>\<open>resolveInSequence\<close>, lines 21 to 27.\<close>

definition resolveInSequence :: "(unit \<Rightarrow> res promise) list \<Rightarrow> res list promise" where
  "resolveInSequence functionsToExecute =
     reduce (\<lambda>promise functionToExecute.
               Promise_then promise (\<lambda>result.
                 Promise_then (functionToExecute ())
                   (\<lambda>v. Promise_resolve (array_concat result v))))
       (Promise_resolve []) functionsToExecute"

text \<open>
  The operation of lines 145 to 153, one for each attribute: it sends the update when
  it is run, and resolves to the provider's response, an object.
\<close>

definition updateOperation :: "sns \<Rightarrow> jsval \<Rightarrow> obj \<Rightarrow> unit \<Rightarrow> res promise" where
  "updateOperation client topicArn topicAttribute =
     (\<lambda>_. case attributeParams topicArn topicAttribute of
             Inl e \<Rightarrow> Promise_reject e
           | Inr params \<Rightarrow>
               Promise_then (setTopicAttributes client params)
                 (\<lambda>response. Promise_resolve (Value response)))"

text \<open>\<open>updateDeliveryStatusAttributes\<close>, lines 140 to 156.\<close>

definition updateDeliveryStatusAttributes :: "sns \<Rightarrow> obj list \<Rightarrow> jsval \<Rightarrow> res list promise" where
  "updateDeliveryStatusAttributes client deliveryStatusAttributes topicArn =
     resolveInSequence (map (updateOperation client topicArn) deliveryStatusAttributes)"

text \<open>
  \<open>map\<close> with a callback that sends a request, as at lines 128 to 138, where its
  result is handed to \<open>Promise.all\<close> as an array of promises: the callbacks
  run in order, each sends its request at once and leaves a promise, here the outcome the
  provider gives it; a callback that throws ends the map. \<open>Promise_all\<close> then resolves
  with every response, or rejects with a rejection among the outcomes, here the first in
  list order.
\<close>

fun sendEach ::
  "('x \<Rightarrow> error + 'a promise) \<Rightarrow> 'x list \<Rightarrow> trace \<Rightarrow> (error + (error + 'a) list) \<times> trace" where
  "sendEach f [] t = (Inr [], t)"
| "sendEach f (x # xs) t =
     (case f x of
        Inl e \<Rightarrow> (Inl e, t)
      | Inr p \<Rightarrow>
          (case p t of (outcome, t') \<Rightarrow>
             (case sendEach f xs t' of
                (Inl e, t'') \<Rightarrow> (Inl e, t'')
              | (Inr outcomes, t'') \<Rightarrow> (Inr (outcome # outcomes), t''))))"

fun Promise_all :: "(error + 'a) list \<Rightarrow> error + 'a list" where
  "Promise_all [] = Inr []"
| "Promise_all (Inl e # outcomes) = Inl e"
| "Promise_all (Inr v # outcomes) =
     (case Promise_all outcomes of Inl e \<Rightarrow> Inl e | Inr vs \<Rightarrow> Inr (v # vs))"

text \<open>\<open>updateTopicAttributes\<close>, lines 127 to 138.\<close>

definition updateTopicAttributes :: "sns \<Rightarrow> obj list \<Rightarrow> jsval \<Rightarrow> jsval list promise" where
  "updateTopicAttributes client topicAttributes topicArn =
     (\<lambda>t. case sendEach (\<lambda>topicAttribute.
                    case attributeParams topicArn topicAttribute of
                      Inl e \<Rightarrow> Inl e
                    | Inr params \<Rightarrow> Inr (setTopicAttributes client params))
                 topicAttributes t of
            (Inl e, t') \<Rightarrow> (Inl e, t')
          | (Inr outcomes, t') \<Rightarrow> (Promise_all outcomes, t'))"

section \<open>The topic component: instances\<close>

text \<open>
  The fields \<open>updateAttributes\<close> reads from its second and third argument, and a topic
  instance, which has them all. A field that is \<open>undefined\<close> and a field that is absent
  are the same here. \<open>deliveryStatusAttributes\<close> is an array of objects or \<open>undefined\<close>.
\<close>

record attributes =
  displayName :: jsval
  policy :: jsval
  deliveryPolicy :: jsval
  deliveryStatusAttributes :: "obj list option"
  topicArn :: jsval

text \<open>\<open>provider.getSdk()\<close> followed by \<open>new AWS.SNS()\<close> yields the client.\<close>

record provider =
  getSdk :: sns

record topic = attributes +
  instanceId :: string
  provider :: "provider option"
  topicName :: jsval
  name :: jsval

record inputs =
  input_provider :: "provider option"
  input_topicName :: jsval
  input_displayName :: jsval
  input_policy :: jsval
  input_deliveryPolicy :: jsval
  input_deliveryStatusAttributes :: "obj list option"

record execution_context =
  context_get :: "string \<Rightarrow> provider option"

text \<open>The empty object \<open>{}\<close> passed as previous instance at line 44.\<close>

definition emptyObject :: attributes where
  "emptyObject =
     \<lparr>displayName = Prim Undefined, policy = Prim Undefined, deliveryPolicy = Prim Undefined,
      deliveryStatusAttributes = None, topicArn = Prim Undefined\<rparr>"

text \<open>
  \<open>merge(l, r)\<close> on plain objects: the properties of \<open>l\<close>, with the value \<open>r\<close> gives them
  where it has one, then the other properties of \<open>r\<close>.
\<close>

definition merge :: "obj \<Rightarrow> obj \<Rightarrow> obj" where
  "merge l r =
     map (\<lambda>(k, v). (k, case map_of r k of None \<Rightarrow> v | Some w \<Rightarrow> w)) l @
     filter (\<lambda>(k, v). k \<notin> set (keys_of l)) r"

text \<open>
  The object a deployment assigns onto the instance: plain properties, and the
  flattened \<open>deliveryStatusAttributes\<close> array.
\<close>

record props =
  props_fields :: obj
  props_deliveryStatusAttributes :: "obj list"

text \<open>\<open>updateAttributes\<close>, lines 70 to 125.\<close>

definition updateAttributes ::
  "sns \<Rightarrow> 'a attributes_scheme \<Rightarrow> 'b attributes_scheme \<Rightarrow> props promise" where
  "updateAttributes client args prevInstance =
     (let topicAttributes =
            foldl (\<lambda>result v.
                     if truthy (orUndefined (head (values_of v))) then result @ [v] else result)
              []
              [[(''displayName'', displayName args)], [(''policy'', policy args)],
               [(''deliveryPolicy'', deliveryPolicy args)]];
          prevInstanceTopicAttributes =
            filter (\<lambda>item. \<not> isNil (orUndefined (head (values_of item))))
              [[(''displayName'', displayName prevInstance)],
               [(''policy'', policy prevInstance)],
               [(''deliveryPolicy'', deliveryPolicy prevInstance)]];
          topicAttributesToUpdate =
            concatInputsAndState topicAttributes (Some prevInstanceTopicAttributes)
      in Promise_then (updateTopicAttributes client topicAttributesToUpdate (topicArn args))
           (\<lambda>_.
              let flatDeliveryStatusAttributes =
                    foldl (\<lambda>result attribute.
                             result @
                             map (\<lambda>key. [(key, orUndefined (map_of attribute key))])
                               (keys_of attribute))
                      []
                      (case deliveryStatusAttributes args of None \<Rightarrow> [] | Some a \<Rightarrow> a);
                  deliveryStatusAttributesToUpdate =
                    concatInputsAndState flatDeliveryStatusAttributes
                      (deliveryStatusAttributes prevInstance)
              in Promise_then
                   (updateDeliveryStatusAttributes client deliveryStatusAttributesToUpdate
                      (topicArn args))
                   (\<lambda>_. Promise_resolve
                          \<lparr>props_fields =
                             foldl (\<lambda>result v.
                                      merge [(propertyKey (head (keys_of v)),
                                              orUndefined (head (values_of v)))] result)
                               [] topicAttributes,
                           props_deliveryStatusAttributes = flatDeliveryStatusAttributes\<rparr>)))"

text \<open>\<open>createSNSTopic\<close>, lines 29 to 47.\<close>

definition createSNSTopic :: "sns \<Rightarrow> 'a topic_scheme \<Rightarrow> props promise" where
  "createSNSTopic client args =
     Promise_then (createTopic client (topicName args))
       (\<lambda>arn.
          Promise_then
            (updateAttributes client
               \<lparr>displayName = displayName args, policy = policy args,
                deliveryPolicy = deliveryPolicy args,
                deliveryStatusAttributes = deliveryStatusAttributes args, topicArn = arn\<rparr>
               emptyObject)
            (\<lambda>topicAttributes.
               Promise_resolve
                 (topicAttributes
                    \<lparr>props_fields :=
                       merge [(''topicArn'', arn), (''topicName'', topicName args)]
                         (props_fields topicAttributes)\<rparr>)))"

text \<open>
  \<open>construct\<close>, lines 160 to 169. The super class is the parameter of the mixin and not
  in the file: \<open>this\<close> is the instance as \<open>super.construct\<close> left it, its \<open>instanceId\<close>
  set.
\<close>

definition construct :: "topic \<Rightarrow> inputs \<Rightarrow> execution_context \<Rightarrow> topic" where
  "construct this inputs context =
     this
       \<lparr>provider :=
          (case input_provider inputs of
             Some p \<Rightarrow> Some p
           | None \<Rightarrow> context_get context ''provider''),
        topicName :=
          (if truthy (input_topicName inputs) then input_topicName inputs
           else Prim (Str (''sns-'' @ instanceId this))),
        displayName := input_displayName inputs,
        policy := input_policy inputs,
        deliveryPolicy := input_deliveryPolicy inputs,
        deliveryStatusAttributes := input_deliveryStatusAttributes inputs\<rparr>"

definition DEPLOY :: string where
  "DEPLOY = ''deploy''"

definition REPLACE :: string where
  "REPLACE = ''replace''"

text \<open>
  \<open>shouldDeploy\<close>, lines 171 to 178. Past the second \<open>if\<close> the method ends without a
  \<open>return\<close>: the call yields \<open>undefined\<close>.
\<close>

definition shouldDeploy :: "topic \<Rightarrow> topic option \<Rightarrow> prim" where
  "shouldDeploy this prevInstance =
     (case prevInstance of
        None \<Rightarrow> Str DEPLOY
      | Some prev \<Rightarrow>
          if \<not> strict_eq (topicName prev) (topicName this) \<or>
             \<not> strict_eq (policy prev) (policy this)
          then Str REPLACE
          else Undefined)"

text \<open>\<open>Object.assign(this, props)\<close>.\<close>

definition assignField :: "topic \<Rightarrow> string \<times> jsval \<Rightarrow> topic" where
  "assignField this kv =
     (case kv of (k, v) \<Rightarrow>
        if k = ''displayName'' then this\<lparr>displayName := v\<rparr>
        else if k = ''policy'' then this\<lparr>policy := v\<rparr>
        else if k = ''deliveryPolicy'' then this\<lparr>deliveryPolicy := v\<rparr>
        else if k = ''topicArn'' then this\<lparr>topicArn := v\<rparr>
        else if k = ''topicName'' then this\<lparr>topicName := v\<rparr>
        else if k = ''name'' then this\<lparr>name := v\<rparr>
        else this)"

definition Object_assign :: "topic \<Rightarrow> props \<Rightarrow> topic" where
  "Object_assign this p =
     (foldl assignField this (props_fields p))
       \<lparr>deliveryStatusAttributes := Some (props_deliveryStatusAttributes p)\<rparr>"

text \<open>
  \<open>deploy\<close>, lines 180 to 206; it resolves with the instance as the assignments leave it.
  \<open>resolve\<close> of a value that is no promise is the value. \<open>merge({ topicArn }, this)\<close>
  keeps the \<open>topicArn\<close> of \<open>this\<close> when it has one.
\<close>

definition deploy :: "topic \<Rightarrow> topic option \<Rightarrow> topic promise" where
  "deploy this prevInstance =
     (case provider this of
        None \<Rightarrow> Promise_reject TypeError
      | Some p \<Rightarrow>
          let client = getSdk p;
              create =
                Promise_then (context_log (CreatingTopic (topicName this)))
                  (\<lambda>_. Promise_then (createSNSTopic client this)
                         (\<lambda>created.
                            let this' = Object_assign this created
                            in Promise_then (context_log (TopicCreated (topicName this')))
                                 (\<lambda>_. Promise_resolve this')))
          in case prevInstance of
               None \<Rightarrow> create
             | Some prev \<Rightarrow>
                 if strict_eq (topicName prev) (topicName this)
                 then Promise_then (context_log (UpdatingTopic (topicName this)))
                        (\<lambda>_. Promise_then
                               (updateAttributes client
                                  (this\<lparr>topicArn :=
                                          (if topicArn this = Prim Undefined then topicArn prev
                                           else topicArn this)\<rparr>)
                                  prev)
                               (\<lambda>updated.
                                  let this' =
                                        Object_assign this
                                          (updated
                                             \<lparr>props_fields :=
                                                merge (props_fields updated)
                                                  [(''name'', topicName this),
                                                   (''topicArn'', topicArn prev)]\<rparr>)
                                  in Promise_then (context_log (TopicUpdated (topicName this')))
                                       (\<lambda>_. Promise_resolve this')))
                 else create)"

section \<open>The component tree: values and objects\<close>

text \<open>
  A value the hydrator handles is a primitive or a component. Components are objects
  that the code mutates and that several places may refer to, so they live in a heap and
  a value refers to one by its address. Hydration only ever adds objects to the heap.
\<close>

type_synonym ref = nat

datatype dval = Plain prim | Ref ref

text \<open>
  A property key: a name, or an array index (for an object, a key that is the decimal
  form of one). A collection is an array or a plain object. \<open>entries\<close> lists what
  \<open>map\<close> and \<open>forEach\<close> visit, with the key they pass along.
\<close>

datatype key = Index nat | Name string

datatype 'a collection = Arr "'a list" | Obj "(key \<times> 'a) list"

fun entries :: "'a collection \<Rightarrow> (key \<times> 'a) list" where
  "entries (Arr xs) = zip (map Index [0..<length xs]) xs"
| "entries (Obj kvs) = kvs"

text \<open>
  What \<open>define\<close> returns: a collection of values, or a single primitive. A bare
  component as the return value is not modelled.
\<close>

datatype defined = Single prim | Coll "dval collection"

text \<open>
  A component object. \<open>sync\<close> and \<open>define_method\<close> (the source's \<open>define\<close>, absent when
  \<open>None\<close>) are its methods, given the context. \<open>sync\<close> rejects with a reason or resolves
  with a status. \<open>define\<close> throws with a reason or returns a value; a \<open>define\<close> that
  returns a promise is not modelled, since line 42 applies \<open>or\<close> to what \<open>define\<close>
  returns, before the \<open>await\<close>. What the methods do to the object's other properties is
  not modelled. \<open>attachedState\<close> is what \<open>hydrateComponent\<close> attaches.
\<close>

record 'ctx component =
  sync :: "'ctx \<Rightarrow> string + prim"
  define_method :: "('ctx \<Rightarrow> string + defined) option"
  parent :: "ref option"
  children :: "ref collection option"
  attachedState :: "ref option"

type_synonym 'ctx heap = "'ctx component list"

text \<open>
  The ways hydration fails: the \<open>TypeError\<close> of line 24 with the value received, the
  \<open>Error\<close> of line 52 with the children received and the component they came from, a
  rejection by \<open>sync\<close> or \<open>define\<close>, and \<open>map\<close> given a primitive it cannot go
  through.
\<close>

datatype failure =
  NotAComponent dval
| BadDefinition "dval collection" ref
| Rejected string
| NotIterable prim

text \<open>
  The outcome of a hydration: \<open>None\<close> when the fuel ran out, else the heap as it was
  left and a failure or the result.
\<close>

type_synonym ('ctx, 'a) outcome = "('ctx heap \<times> (failure + 'a)) option"

section \<open>The component tree: helpers outside the source files\<close>

text \<open>
  Modelled from the spec: \<open>isComponent.js\<close> is not among the source files. A value is a
  component when it satisfies the component capability contract, that is, has \<open>sync\<close>:
  here, when it refers to an object of the heap.
\<close>

definition isComponent :: "'ctx heap \<Rightarrow> dval \<Rightarrow> bool" where
  "isComponent h v = (case v of Plain p \<Rightarrow> False | Ref r \<Rightarrow> r < length h)"

text \<open>
  Modelled from the spec: \<open>clone\<close> comes from the utility library, which is not among
  the source files. It produces an independent working copy, a deep, structural clone:
  a copy of the component and of every object that can be reached from it through
  \<open>parent\<close>, \<open>children\<close> and \<open>attachedState\<close>, where each reference to a copied object
  is redirected to its copy. \<open>reachable\<close> collects those objects, the component first,
  in as many rounds as the heap has objects; the copies are added to the heap in that
  order, so the clone of the component is the first object added.
\<close>

definition links_of :: "'ctx component \<Rightarrow> ref list" where
  "links_of c =
     (case parent c of None \<Rightarrow> [] | Some p \<Rightarrow> [p]) @
     (case children c of None \<Rightarrow> [] | Some cs \<Rightarrow> map snd (entries cs)) @
     (case attachedState c of None \<Rightarrow> [] | Some s \<Rightarrow> [s])"

primrec reachable :: "nat \<Rightarrow> 'ctx heap \<Rightarrow> ref list \<Rightarrow> ref list" where
  "reachable 0 h seen = seen"
| "reachable (Suc n) h seen =
     reachable n h
       (seen @
        remdups (filter (\<lambda>x. x < length h \<and> x \<notin> set seen)
                   (concat (map (\<lambda>r. links_of (h ! r)) seen))))"

fun index_of :: "'a list \<Rightarrow> 'a \<Rightarrow> nat option" where
  "index_of [] x = None"
| "index_of (y # ys) x = (if x = y then Some 0 else map_option Suc (index_of ys x))"

definition redirect :: "nat \<Rightarrow> ref list \<Rightarrow> ref \<Rightarrow> ref" where
  "redirect base copied x = (case index_of copied x of None \<Rightarrow> x | Some i \<Rightarrow> base + i)"

definition relink :: "(ref \<Rightarrow> ref) \<Rightarrow> 'ctx component \<Rightarrow> 'ctx component" where
  "relink m c =
     c\<lparr>parent := map_option m (parent c),
       children := map_option (map_collection m) (children c),
       attachedState := map_option m (attachedState c)\<rparr>"

definition clone :: "'ctx heap \<Rightarrow> ref \<Rightarrow> 'ctx heap \<times> ref" where
  "clone h r =
     (let copied = reachable (length h) h [r]
      in (h @ map (\<lambda>x. relink (redirect (length h) copied) (h ! x)) copied, length h))"

text \<open>
  Modelled from the spec: \<open>hydrateComponent.js\<close> is not among the source files. Step 3
  of the algorithm: it attaches onto the original component the state that step 2
  resulted in, and yields that same node for the steps that follow.
\<close>

definition hydrateComponent ::
  "'ctx heap \<Rightarrow> ref \<Rightarrow> ref option \<Rightarrow> 'ctx \<Rightarrow> 'ctx heap \<times> ref" where
  "hydrateComponent h component st context =
     (h[component := (h ! component)\<lparr>attachedState := st\<rparr>], component)"

text \<open>
  Modelled from the spec: \<open>or\<close>, \<open>resolve\<close>, \<open>map\<close>, \<open>filter\<close>, \<open>isObject\<close>, \<open>forEach\<close> and
  \<open>get\<close> come from the utility library, the standard collection operations of section 1
  of the specification. \<open>or(a, b)\<close> is \<open>a\<close> when it is truthy and \<open>b\<close> otherwise.
  \<open>resolve\<close> awaits a value, and the values here are settled. \<open>map\<close> keeps the shape of
  an array or an object, goes through a string character by character and yields the
  array of the results, and fails on any other primitive. \<open>filter\<close> keeps the entries
  whose value passes. \<open>isObject\<close> holds of every array and every object.
\<close>

definition or_else :: "defined \<Rightarrow> defined \<Rightarrow> defined" where
  "or_else a b = (case a of Single p \<Rightarrow> if truthy_prim p then a else b | Coll c \<Rightarrow> a)"

definition resolve :: "dval \<Rightarrow> dval" where
  "resolve v = v"

fun map_defined :: "(dval \<Rightarrow> dval) \<Rightarrow> defined \<Rightarrow> failure + dval collection" where
  "map_defined f (Coll (Arr xs)) = Inr (Arr (map f xs))"
| "map_defined f (Coll (Obj kvs)) = Inr (Obj (map (\<lambda>(k, v). (k, f v)) kvs))"
| "map_defined f (Single (Str s)) = Inr (Arr (map (\<lambda>ch. f (Plain (Str [ch]))) s))"
| "map_defined f (Single p) = Inl (NotIterable p)"

fun filter_collection :: "('a \<Rightarrow> bool) \<Rightarrow> 'a collection \<Rightarrow> 'a collection" where
  "filter_collection P (Arr xs) = Arr (filter P xs)"
| "filter_collection P (Obj kvs) = Obj (filter (\<lambda>(k, v). P v) kvs)"

definition isObject :: "'a collection \<Rightarrow> bool" where
  "isObject cs = (case cs of Arr xs \<Rightarrow> True | Obj kvs \<Rightarrow> True)"

text \<open>\<open>get(['children', key], state)\<close>: \<open>undefined\<close> wherever the path ends early.\<close>

definition get_children :: "'ctx heap \<Rightarrow> key \<Rightarrow> ref option \<Rightarrow> ref option" where
  "get_children h k st =
     (case st of
        None \<Rightarrow> None
      | Some s \<Rightarrow>
          (case children (h ! s) of
             None \<Rightarrow> None
           | Some cs \<Rightarrow> map_of (entries cs) k))"

text \<open>
  \<open>map\<close> over a collection with an asynchronous callback, awaited as at line 56: a
  collection of the results under the same keys. The source starts the callback on every
  entry and awaits them together; here the entries are taken one after the other, and
  the first failure in that order is the failure of the whole.
\<close>

fun mapEntries ::
  "('ctx heap \<Rightarrow> key \<Rightarrow> 'a \<Rightarrow> ('ctx, 'b) outcome) \<Rightarrow> 'ctx heap \<Rightarrow> (key \<times> 'a) list \<Rightarrow>
   ('ctx, (key \<times> 'b) list) outcome" where
  "mapEntries f h [] = Some (h, Inr [])"
| "mapEntries f h ((k, x) # rest) =
     (case f h k x of
        None \<Rightarrow> None
      | Some (h', Inl e) \<Rightarrow> Some (h', Inl e)
      | Some (h', Inr y) \<Rightarrow>
          (case mapEntries f h' rest of
             None \<Rightarrow> None
           | Some (h'', Inl e) \<Rightarrow> Some (h'', Inl e)
           | Some (h'', Inr ys) \<Rightarrow> Some (h'', Inr ((k, y) # ys))))"

fun sameShape :: "'a collection \<Rightarrow> (key \<times> 'b) list \<Rightarrow> 'b collection" where
  "sameShape (Arr xs) ys = Arr (map snd ys)"
| "sameShape (Obj kvs) ys = Obj ys"

section \<open>The component tree: hydration\<close>

text \<open>The loop of lines 46 to 50: \<open>child.parent = component\<close> for every child.\<close>

definition setParents :: "'ctx heap \<Rightarrow> dval list \<Rightarrow> ref \<Rightarrow> 'ctx heap" where
  "setParents h childs component =
     foldl (\<lambda>h' child. case child of
                         Plain p \<Rightarrow> h'
                       | Ref c \<Rightarrow> h'[c := (h' ! c)\<lparr>parent := Some component\<rparr>])
       h childs"

text \<open>
  Lines 40 to 61 of \<open>defineComponent\<close>: what it does once the previous state \<open>st\<close> is
  settled. \<open>defineChild\<close> stands for the recursive call of line 57. The callback of
  line 57 reads the child's previous state when \<open>map\<close> calls it, before any child is
  hydrated.
\<close>

definition hydrateAndDefine ::
  "('ctx heap \<Rightarrow> dval \<Rightarrow> ref option \<Rightarrow> ('ctx, ref) outcome) \<Rightarrow>
   'ctx heap \<Rightarrow> ref \<Rightarrow> ref option \<Rightarrow> 'ctx \<Rightarrow> ('ctx, ref) outcome" where
  "hydrateAndDefine defineChild h original st context =
     (case hydrateComponent h original st context of (h2, component) \<Rightarrow>
        (case define_method (h2 ! component) of
           None \<Rightarrow> Some (h2, Inr component)
         | Some definer \<Rightarrow>
             (case definer context of
                Inl reason \<Rightarrow> Some (h2, Inl (Rejected reason))
              | Inr returned \<Rightarrow>
                  (case map_defined resolve (or_else returned (Coll (Obj []))) of
                     Inl e \<Rightarrow> Some (h2, Inl e)
                   | Inr mapped \<Rightarrow>
                       let childs = filter_collection (isComponent h2) mapped
                       in if isObject childs
                          then
                            let h3 = setParents h2 (map snd (entries childs)) component
                            in case mapEntries
                                      (\<lambda>h' k child.
                                         defineChild h' child (get_children h3 k st))
                                      h3 (entries childs) of
                                 None \<Rightarrow> None
                               | Some (h4, Inl e) \<Rightarrow> Some (h4, Inl e)
                               | Some (h4, Inr hydrated) \<Rightarrow>
                                   Some (h4[component :=
                                              (h4 ! component)
                                                \<lparr>children :=
                                                   Some (sameShape childs hydrated)\<rparr>],
                                         Inr component)
                          else Some (h2, Inl (BadDefinition childs component))))))"

text \<open>
  \<open>defineComponent\<close>, lines 21 to 62. The recursion follows the objects of the heap,
  which may refer to each other in a cycle; the fuel bounds its depth.
\<close>

fun defineComponent ::
  "nat \<Rightarrow> 'ctx heap \<Rightarrow> dval \<Rightarrow> ref option \<Rightarrow> 'ctx \<Rightarrow> ('ctx, ref) outcome" where
  "defineComponent 0 h component st context = None"
| "defineComponent (Suc fuel) h component st context =
     (case (isComponent h component, component) of
        (True, Ref c) \<Rightarrow>
          (case clone h c of (h1, componentClone) \<Rightarrow>
             (case sync (h1 ! componentClone) context of
                Inl reason \<Rightarrow> Some (h1, Inl (Rejected reason))
              | Inr status \<Rightarrow>
                  hydrateAndDefine (\<lambda>h' child st'. defineComponent fuel h' child st' context)
                    h1 c (if status \<noteq> Str ''removed'' then Some componentClone else st)
                    context))
      | _ \<Rightarrow> Some (h, Inl (NotAComponent component)))"

text \<open>
  Two heaps of which the second has every object of the first, with the same methods,
  parent and children: only the attached state may differ.
\<close>

definition onlyStateChanged :: "'ctx heap \<Rightarrow> 'ctx heap \<Rightarrow> bool" where
  "onlyStateChanged g g' =
     (length g \<le> length g' \<and>
      list_all (\<lambda>y. sync (g' ! y) = sync (g ! y) \<and>
                    define_method (g' ! y) = define_method (g ! y) \<and>
                    parent (g' ! y) = parent (g ! y) \<and>
                    children (g' ! y) = children (g ! y)) [0..<length g])"

section \<open>The sequential executor as the specification words it\<close>

text \<open>
  Section 4.4 of the specification: each operation runs once the one before it has
  settled, the results are accumulated in order, one for each operation, and the first
  rejection ends the run: it is the outcome, and no later operation is started.
\<close>

fun runFrom :: "'a list \<Rightarrow> (unit \<Rightarrow> 'a promise) list \<Rightarrow> 'a list promise" where
  "runFrom results [] t = (Inr results, t)"
| "runFrom results (operation # operations) t =
     (case operation () t of
        (Inl e, t') \<Rightarrow> (Inl e, t')
      | (Inr v, t') \<Rightarrow> runFrom (results @ [v]) operations t')"

definition runSequentially :: "(unit \<Rightarrow> 'a promise) list \<Rightarrow> 'a list promise" where
  "runSequentially operations = runFrom [] operations"

text \<open>An operation that never resolves to an array.\<close>

definition resolvesToValues :: "(unit \<Rightarrow> res promise) \<Rightarrow> bool" where
  "resolvesToValues operation =
     (\<forall>t v. fst (operation () t) = Inr v \<longrightarrow> (\<exists>x. v = Value x))"

section \<open>Scenarios\<close>

text \<open>The requests of a trace, and how many of them update an attribute.\<close>

definition requests :: "trace \<Rightarrow> trace" where
  "requests t = filter (\<lambda>e. case e of Log m \<Rightarrow> False | _ \<Rightarrow> True) t"

definition updateCalls :: "trace \<Rightarrow> nat" where
  "updateCalls t =
     length (filter (\<lambda>e. case e of SetTopicAttributes a k v \<Rightarrow> True | _ \<Rightarrow> False) t)"

text \<open>A provider that accepts every request, and one that accepts a single update.\<close>

definition acceptingClient :: sns where
  "acceptingClient =
     \<lparr>onCreateTopic = (\<lambda>t n. Inr (Prim (Str ''arn:aws:sns:orders''))),
      onSetTopicAttributes = (\<lambda>t a k v. Inr (Object 0 ''{}''))\<rparr>"

definition throttlingClient :: sns where
  "throttlingClient =
     \<lparr>onCreateTopic = (\<lambda>t n. Inr (Prim (Str ''arn:aws:sns:orders''))),
      onSetTopicAttributes =
        (\<lambda>t a k v. if updateCalls t = 0 then Inr (Object 0 ''{}'')
                   else Inl (ProviderError ''Throttling''))\<rparr>"

text \<open>An instance as the super class leaves it, before \<open>construct\<close> fills it in.\<close>

definition newInstance :: topic where
  "newInstance =
     \<lparr>displayName = Prim Undefined, policy = Prim Undefined, deliveryPolicy = Prim Undefined,
      deliveryStatusAttributes = None, topicArn = Prim Undefined, instanceId = ''id1'',
      provider = None, topicName = Prim Undefined, name = Prim Undefined\<rparr>"

text \<open>Scenario A of the specification: the inputs \<open>topicName\<close> and \<open>displayName\<close>.\<close>

definition scenarioA :: "sns \<Rightarrow> inputs" where
  "scenarioA client =
     \<lparr>input_provider = Some \<lparr>getSdk = client\<rparr>, input_topicName = Prim (Str ''orders''),
      input_displayName = Prim (Str ''Orders''), input_policy = Prim Undefined,
      input_deliveryPolicy = Prim Undefined, input_deliveryStatusAttributes = None\<rparr>"

definition noServices :: execution_context where
  "noServices = \<lparr>context_get = (\<lambda>k. None)\<rparr>"

text \<open>A topic instance with the given name, display name and policy.\<close>

definition topicOf :: "jsval \<Rightarrow> jsval \<Rightarrow> jsval \<Rightarrow> topic" where
  "topicOf n d p = newInstance\<lparr>topicName := n, displayName := d, policy := p\<rparr>"

text \<open>Three delivery status attributes to update.\<close>

definition feedbackAttributes :: "obj list" where
  "feedbackAttributes =
     [[(''httpSuccessFeedbackRoleArn'', Prim (Str ''role1''))],
      [(''httpFailureFeedbackRoleArn'', Prim (Str ''role2''))],
      [(''httpSuccessFeedbackSampleRate'', Prim (Str ''50''))]]"

text \<open>
  Components for the hydration scenarios, with the unit context: one without \<open>define\<close>,
  with the status its \<open>sync\<close> resolves to and its parent, and one whose \<open>define\<close>
  returns a given value.
\<close>

definition leafComponent :: "prim \<Rightarrow> ref option \<Rightarrow> unit component" where
  "leafComponent status p =
     \<lparr>sync = (\<lambda>_. Inr status), define_method = None, parent = p, children = None,
      attachedState = None\<rparr>"

definition definingComponent :: "prim \<Rightarrow> defined \<Rightarrow> unit component" where
  "definingComponent status returned =
     \<lparr>sync = (\<lambda>_. Inr status), define_method = Some (\<lambda>_. Inr returned), parent = None,
      children = None, attachedState = None\<rparr>"

text \<open>The links of every object of a heap: its parent, its children, its attached state.\<close>

definition links :: "'ctx heap \<Rightarrow> (ref option \<times> ref collection option \<times> ref option) list" where
  "links h = map (\<lambda>c. (parent c, children c, attachedState c)) h"

definition outcomeLinks ::
  "('ctx, ref) outcome \<Rightarrow>
   ((ref option \<times> ref collection option \<times> ref option) list \<times> (failure + ref)) option" where
  "outcomeLinks out = (case out of None \<Rightarrow> None | Some (h, r) \<Rightarrow> Some (links h, r))"

text \<open>
  A parent whose \<open>define\<close> returns the one child at address 1; the child already has the
  object at address 2 as its parent.
\<close>

definition adoptedChildHeap :: "unit heap" where
  "adoptedChildHeap =
     [definingComponent (Str ''synced'') (Coll (Arr [Ref 1])),
      leafComponent (Str ''synced'') (Some 2),
      leafComponent (Str ''synced'') None]"

text \<open>A parent and its one child, neither hydrated before.\<close>

definition freshHeap :: "unit heap" where
  "freshHeap =
     [definingComponent (Str ''synced'') (Coll (Arr [Ref 1])),
      leafComponent (Str ''synced'') None]"

text \<open>
  A parent and its child \<open>a\<close>, both reported removed by \<open>sync\<close>, and at address 2 the
  previous state of the parent, whose child \<open>a\<close> is the object at address 3.
\<close>

definition removedHeap :: "unit heap" where
  "removedHeap =
     [definingComponent (Str ''removed'') (Coll (Obj [(Name ''a'', Ref 1)])),
      leafComponent (Str ''removed'') None,
      (leafComponent (Str ''synced'') None)\<lparr>children := Some (Obj [(Name ''a'', 3)])\<rparr>,
      leafComponent (Str ''synced'') None]"

section \<open>Properties of the attribute diff\<close>

lemma equals_refl: "equals v v"
  by (cases v) auto

lemma equals_obj_refl: "equals_obj a a"
  unfolding equals_obj_def list_all_iff list_ex_iff
  by (auto intro: equals_refl)

lemma find_equals_obj_member:
  "item \<in> set state \<Longrightarrow> find (equals_obj item) state \<noteq> None"
  by (auto simp: find_None_iff intro: equals_obj_refl)

lemma unset_fold_known:
  "\<forall>a \<in> set state. contains (head (keys_of a)) ks \<Longrightarrow>
   foldl (\<lambda>attributes attribute.
            let key = head (keys_of attribute)
            in if \<not> contains key ks
               then attributes @ [[(propertyKey key, Prim (Str ''''))]]
               else attributes) acc state = acc"
  by (induction state arbitrary: acc) (auto simp: Let_def)

text \<open>
  C9. The diff of an attribute list against itself is empty: no attribute to set and
  no attribute to unset, whatever the list holds.
\<close>

theorem diff_of_same_is_empty: "concatInputsAndState d (Some d) = []"
proof -
  have "\<forall>a \<in> set d. contains (head (keys_of a)) (map (\<lambda>item. head (keys_of item)) d)"
    by (auto simp: contains_def)
  from unset_fold_known [OF this, of "[]"] show ?thesis
    unfolding concatInputsAndState_def
    by (simp add: filter_empty_conv find_equals_obj_member del: foldl_Cons)
qed

lemma set_unset_fold:
  "set (foldl (\<lambda>attributes attribute.
            let key = head (keys_of attribute)
            in if \<not> contains key ks
               then attributes @ [[(propertyKey key, Prim (Str ''''))]]
               else attributes) acc state) =
   set acc \<union> {[(propertyKey (head (keys_of a)), Prim (Str ''''))] | a.
                  a \<in> set state \<and> \<not> contains (head (keys_of a)) ks}"
  by (induction state arbitrary: acc) (auto simp: Let_def)

lemma equals_empty_string: "equals (Prim (Str '''')) w \<Longrightarrow> w = Prim (Str '''')"
  by (cases w) auto

lemma equals_obj_unset:
  assumes "equals_obj [(k, Prim (Str ''''))] s"
  shows "s = [(k, Prim (Str ''''))]"
proof -
  from assms have len: "length s = 1"
    and ex: "list_ex (\<lambda>(k', w). k = k' \<and> equals (Prim (Str '''')) w) s"
    by (auto simp: equals_obj_def)
  from len obtain k' w where s: "s = [(k', w)]"
    by (cases s) auto
  with ex show ?thesis
    by (auto dest: equals_empty_string)
qed

text \<open>
  C6. Take previous attributes with one entry per key. An entry of them whose value is
  truthy and whose key is not among the keys of the desired attributes appears in the diff
  as an unset entry: its key with the empty string.
\<close>

theorem removed_attribute_is_unset:
  assumes one_per_key: "distinct (map (\<lambda>a. head (keys_of a)) state)"
    and previous: "a \<in> set state"
    and the_key: "head (keys_of a) = Some k"
    and truthy_value: "truthy (orUndefined (head (values_of a)))"
    and absent: "\<not> contains (Some k) (map (\<lambda>item. head (keys_of item)) inputs)"
  shows "[(k, Prim (Str ''''))] \<in> set (concatInputsAndState inputs (Some state))"
proof -
  let ?unset = "[(k, Prim (Str ''''))]"
  have "find (equals_obj ?unset) state = None"
  proof (rule ccontr)
    assume "find (equals_obj ?unset) state \<noteq> None"
    then obtain s where s: "s \<in> set state" "equals_obj ?unset s"
      by (auto simp: find_None_iff)
    then have s_eq: "s = ?unset"
      by (auto dest: equals_obj_unset)
    then have "head (keys_of s) = head (keys_of a)"
      using the_key by (simp add: head_def keys_of_def)
    with one_per_key s(1) previous have "s = a"
      by (auto simp: distinct_map dest: inj_onD)
    with s_eq truthy_value show False
      by (simp add: head_def values_of_def orUndefined_def)
  qed
  moreover have "?unset \<in> set (foldl (\<lambda>attributes attribute.
            let key = head (keys_of attribute)
            in if \<not> contains key (map (\<lambda>item. head (keys_of item)) inputs)
               then attributes @ [[(propertyKey key, Prim (Str ''''))]]
               else attributes) [] state)"
    unfolding set_unset_fold using previous the_key absent
    by (auto simp: propertyKey_def intro!: exI [of _ a])
  ultimately show ?thesis
    unfolding concatInputsAndState_def by simp
qed

theorem removed_attribute_is_unset_witness:
  "[(''deliveryPolicy'', Prim (Str ''''))] \<in> set (concatInputsAndState
      [[(''policy'', Prim (Str ''P1''))]]
      (Some [[(''policy'', Prim (Str ''P1''))], [(''deliveryPolicy'', Prim (Str ''D1''))]]))"
  by (rule removed_attribute_is_unset [where a = "[(''deliveryPolicy'', Prim (Str ''D1''))]"])
     (simp_all add: head_def keys_of_def values_of_def orUndefined_def contains_def)

section \<open>Properties of the topic life cycle\<close>

text \<open>
  C5, as the code has it. \<open>shouldDeploy\<close> returns \<open>'deploy'\<close> when there is no previous
  instance, and \<open>'replace'\<close> when the topic name or the policy of the previous instance is
  not strictly equal to this one's, as \<open>!==\<close> compares them: two strings when they differ,
  two policy objects when they are not the same object, whatever their contents. In every
  other case it returns nothing, which is the outcome the specification calls none,
  whatever the display names of the two are.
\<close>

theorem shouldDeploy_outcomes:
  "shouldDeploy this None = Str ''deploy'' \<and>
   (\<not> strict_eq (topicName prev) (topicName this) \<or> \<not> strict_eq (policy prev) (policy this)
      \<longrightarrow> shouldDeploy this (Some prev) = Str ''replace'') \<and>
   (strict_eq (topicName prev) (topicName this) \<and> strict_eq (policy prev) (policy this)
      \<longrightarrow> shouldDeploy (this\<lparr>displayName := d\<rparr>) (Some (prev\<lparr>displayName := d'\<rparr>)) = Undefined) \<and>
   (policy prev = Object r c \<and> policy this = Object r' c' \<and> r \<noteq> r'
      \<longrightarrow> shouldDeploy this (Some prev) = Str ''replace'')"
  by (simp add: shouldDeploy_def DEPLOY_def REPLACE_def)

theorem shouldDeploy_outcomes_witness:
  "shouldDeploy (topicOf (Prim (Str ''orders'')) (Prim (Str ''Orders'')) (Prim (Str ''P1''))) None =
     Str ''deploy'' \<and>
   shouldDeploy (topicOf (Prim (Str ''orders'')) (Prim (Str ''Orders'')) (Prim (Str ''P1'')))
     (Some (topicOf (Prim (Str ''events'')) (Prim (Str ''Orders'')) (Prim (Str ''P1'')))) =
     Str ''replace'' \<and>
   shouldDeploy (topicOf (Prim (Str ''orders'')) (Prim (Str ''Order Events'')) (Prim (Str ''P1'')))
     (Some (topicOf (Prim (Str ''orders'')) (Prim (Str ''Orders'')) (Prim (Str ''P1'')))) =
     Undefined \<and>
   shouldDeploy (topicOf (Prim (Str ''orders'')) (Prim (Str ''Orders'')) (Object 2 ''P2''))
     (Some (topicOf (Prim (Str ''orders'')) (Prim (Str ''Orders'')) (Object 1 ''P1''))) =
     Str ''replace''"
  using
    shouldDeploy_outcomes
      [of "topicOf (Prim (Str ''orders'')) (Prim (Str ''Orders'')) (Prim (Str ''P1''))"
          "topicOf (Prim (Str ''events'')) (Prim (Str ''Orders'')) (Prim (Str ''P1''))"]
    shouldDeploy_outcomes
      [of "topicOf (Prim (Str ''orders'')) (Prim (Str ''Orders'')) (Prim (Str ''P1''))"
          "topicOf (Prim (Str ''orders'')) (Prim (Str ''Orders'')) (Prim (Str ''P1''))"
          "Prim (Str ''Order Events'')" "Prim (Str ''Orders'')"]
    shouldDeploy_outcomes
      [of "topicOf (Prim (Str ''orders'')) (Prim (Str ''Orders'')) (Object 2 ''P2'')"
          "topicOf (Prim (Str ''orders'')) (Prim (Str ''Orders'')) (Object 1 ''P1'')"
          _ _ 1 "''P1''" 2 "''P2''"]
  by (simp add: topicOf_def newInstance_def)

text \<open>
  C5 as stated fails: the previous instance and this one have the same topic name and
  policies with the same contents, so that no identity field differs, but the policies are
  two objects, and \<open>shouldDeploy\<close> returns \<open>'replace'\<close>.
\<close>

theorem shouldDeploy_counterexample:
  "strict_eq (Prim (Str ''orders'')) (Prim (Str ''orders'')) \<and>
   equals (Object 1 ''P1'') (Object 2 ''P1'') \<and>
   shouldDeploy (topicOf (Prim (Str ''orders'')) (Prim (Str ''Orders'')) (Object 2 ''P1''))
     (Some (topicOf (Prim (Str ''orders'')) (Prim (Str ''Orders'')) (Object 1 ''P1''))) =
     Str ''replace''"
  by (simp add: shouldDeploy_def REPLACE_def topicOf_def newInstance_def)

text \<open>
  C10. When the inputs give no topic name, \<open>construct\<close> sets the topic name to
  \<open>sns-\<close> followed by the instance id, which it leaves as it was; and whatever the
  inputs are, the topic name is defined once \<open>construct\<close> has run.
\<close>

theorem default_topic_name:
  "(input_topicName inputs = Prim Undefined \<longrightarrow>
      topicName (construct this inputs context) = Prim (Str (''sns-'' @ instanceId this))) \<and>
   topicName (construct this inputs context) \<noteq> Prim Undefined \<and>
   instanceId (construct this inputs context) = instanceId this"
  by (auto simp: construct_def)

theorem default_topic_name_witness:
  "topicName (construct newInstance ((scenarioA acceptingClient)\<lparr>input_topicName := Prim Undefined\<rparr>)
      noServices) = Prim (Str ''sns-id1'')"
  using default_topic_name
    [of "(scenarioA acceptingClient)\<lparr>input_topicName := Prim Undefined\<rparr>" newInstance noServices]
  by (simp add: scenarioA_def newInstance_def)

lemmas deploy_defs =
  deploy_def construct_def Promise_then_def context_log_def
    createSNSTopic_def createTopic_def updateAttributes_def updateTopicAttributes_def
    concatInputsAndState_def head_def values_of_def keys_of_def orUndefined_def contains_def
    emptyObject_def attributeParams_def setTopicAttributes_def capitalize_def toUpperCase_def
    updateDeliveryStatusAttributes_def updateOperation_def resolveInSequence_def reduce_def
    Promise_resolve_def propertyKey_def equals_obj_def Let_def Object_assign_def assignField_def merge_def

text \<open>
  C2, as the code has it. Deploying the topic of scenario A with no previous instance
  sends one creation request and, once the provider has answered it with the topic's ARN,
  one attribute update, which sets \<open>DisplayName\<close> to \<open>Orders\<close>; it sends nothing else.
\<close>

theorem create_path_requests:
  assumes "onCreateTopic client [Log (CreatingTopic (Prim (Str ''orders'')))]
             (Prim (Str ''orders'')) = Inr arn"
  shows "requests (snd (deploy (construct this (scenarioA client) context) None [])) =
           [CreateTopic (Prim (Str ''orders'')),
            SetTopicAttributes arn ''DisplayName'' (Verbatim ''Orders'')]"
  using assms
  by (simp add: deploy_defs scenarioA_def requests_def split: sum.splits prod.splits)

theorem create_path_requests_witness:
  "requests (snd (deploy (construct newInstance (scenarioA acceptingClient) noServices) None [])) =
     [CreateTopic (Prim (Str ''orders'')),
      SetTopicAttributes (Prim (Str ''arn:aws:sns:orders'')) ''DisplayName'' (Verbatim ''Orders'')]"
  by (rule create_path_requests) (simp add: acceptingClient_def)

text \<open>
  C2 as stated fails: with a provider that accepts every request, the deployment of
  scenario A sends one attribute update, not none.
\<close>

theorem create_path_counterexample:
  "updateCalls
     (snd (deploy (construct newInstance (scenarioA acceptingClient) noServices) None [])) = 1"
  by (simp add: deploy_defs scenarioA_def acceptingClient_def newInstance_def updateCalls_def)

section \<open>Properties of the sequential executor\<close>

lemma then_rejected: "p t = (Inl e, t') \<Longrightarrow> Promise_then p f t = (Inl e, t')"
  by (simp add: Promise_then_def)

lemma then_resolved: "p t = (Inr v, t') \<Longrightarrow> Promise_then p f t = f v t'"
  by (simp add: Promise_then_def)

lemma foldl_rejected:
  "p t = (Inl e, t') \<Longrightarrow>
   foldl (\<lambda>promise functionToExecute.
              Promise_then promise (\<lambda>result.
                Promise_then (functionToExecute ())
                  (\<lambda>v. Promise_resolve (array_concat result v)))) p fs t = (Inl e, t')"
  by (induction fs arbitrary: p) (simp_all add: then_rejected)

lemma foldl_sequence:
  "list_all resolvesToValues fs \<Longrightarrow> p t = (Inr acc, t') \<Longrightarrow>
   foldl (\<lambda>promise functionToExecute.
              Promise_then promise (\<lambda>result.
                Promise_then (functionToExecute ())
                  (\<lambda>v. Promise_resolve (array_concat result v)))) p fs t = runFrom acc fs t'"
proof (induction fs arbitrary: p acc t')
  case Nil
  then show ?case by simp
next
  case (Cons f fs)
  let ?next = "Promise_then p (\<lambda>result.
                Promise_then (f ()) (\<lambda>v. Promise_resolve (array_concat result v)))"
  obtain outcome t'' where run: "f () t' = (outcome, t'')"
    by (cases "f () t'")
  show ?case
  proof (cases outcome)
    case (Inl e)
    with run Cons.prems have "?next t = (Inl e, t'')"
      by (simp add: then_resolved then_rejected)
    with run Inl show ?thesis
      by (simp add: foldl_rejected)
  next
    case (Inr v)
    from Cons.prems have "resolvesToValues f"
      by simp
    moreover from run Inr have "fst (f () t') = Inr v"
      by simp
    ultimately obtain x where v: "v = Value x"
      unfolding resolvesToValues_def by blast
    with Inr run Cons.prems have "?next t = (Inr (acc @ [v]), t'')"
      by (simp add: then_resolved Promise_resolve_def array_concat_def)
    with Cons.prems have "foldl (\<lambda>promise functionToExecute.
              Promise_then promise (\<lambda>result.
                Promise_then (functionToExecute ())
                  (\<lambda>v. Promise_resolve (array_concat result v)))) ?next fs t = runFrom (acc @ [v]) fs t''"
      by (intro Cons.IH) simp_all
    with run Inr show ?thesis
      by simp
  qed
qed

lemma runFrom_length:
  "runFrom acc fs t = (Inr rs, t') \<Longrightarrow> length rs = length acc + length fs"
  by (induction fs arbitrary: acc t) (auto split: prod.splits sum.splits)

lemma runFrom_abort:
  "runFrom acc before t = (Inr rs, t1) \<Longrightarrow> operation () t1 = (Inl e, t2) \<Longrightarrow>
   runFrom acc (before @ operation # after) t = (Inl e, t2)"
  by (induction before arbitrary: acc t) (auto split: prod.splits sum.splits)

lemma update_resolvesToValues: "resolvesToValues (updateOperation client arn topicAttribute)"
  by (auto simp: resolvesToValues_def updateOperation_def Promise_reject_def Promise_then_def
      Promise_resolve_def setTopicAttributes_def split: sum.splits prod.splits)

text \<open>
  C7. No operation that the update of the delivery status attributes hands to
  \<open>resolveInSequence\<close> resolves to an array. On operations of that kind
  \<open>resolveInSequence\<close> is the sequential executor of the specification: it starts each
  operation on the trace the one before it has left, a run in which every operation
  resolves yields one result for each operation, in their order, and the first operation
  to reject ends the run with its rejection, on the trace as that operation left it.
\<close>

theorem sequential_executor:
  "list_all resolvesToValues (map (updateOperation client arn) attrs) \<and>
   (list_all resolvesToValues operations \<longrightarrow>
      resolveInSequence operations = runSequentially operations \<and>
      (\<forall>t rs t'. resolveInSequence operations t = (Inr rs, t') \<longrightarrow>
         length rs = length operations) \<and>
      (\<forall>before operation after t rs t1 e t2.
         operations = before @ operation # after \<and>
         runSequentially before t = (Inr rs, t1) \<and> operation () t1 = (Inl e, t2) \<longrightarrow>
         resolveInSequence operations t = (Inl e, t2)))"
proof (intro conjI impI)
  show "list_all resolvesToValues (map (updateOperation client arn) attrs)"
    by (simp add: list_all_iff update_resolvesToValues)
next
  assume no_arrays: "list_all resolvesToValues operations"
  show eq: "resolveInSequence operations = runSequentially operations"
    unfolding resolveInSequence_def reduce_def runSequentially_def
    by (rule ext) (rule foldl_sequence [OF no_arrays], simp add: Promise_resolve_def)
  show "\<forall>t rs t'. resolveInSequence operations t = (Inr rs, t') \<longrightarrow>
         length rs = length operations"
    unfolding eq runSequentially_def by (auto dest: runFrom_length)
  show "\<forall>before operation after t rs t1 e t2.
         operations = before @ operation # after \<and>
         runSequentially before t = (Inr rs, t1) \<and> operation () t1 = (Inl e, t2) \<longrightarrow>
         resolveInSequence operations t = (Inl e, t2)"
    unfolding eq runSequentially_def by (auto intro: runFrom_abort)
qed

theorem sequential_executor_witness:
  "updateDeliveryStatusAttributes throttlingClient feedbackAttributes (Prim (Str ''arn1'')) [] =
     (Inl (ProviderError ''Throttling''),
      [SetTopicAttributes (Prim (Str ''arn1'')) ''HttpSuccessFeedbackRoleArn'' (Verbatim ''role1''),
       SetTopicAttributes (Prim (Str ''arn1'')) ''HttpFailureFeedbackRoleArn'' (Verbatim ''role2'')])"
proof -
  let ?operations = "map (updateOperation throttlingClient (Prim (Str ''arn1''))) feedbackAttributes"
  from sequential_executor
    [of throttlingClient "Prim (Str ''arn1'')" feedbackAttributes ?operations]
  have "resolveInSequence ?operations = runSequentially ?operations"
    by simp
  then show ?thesis
    by (simp add: updateDeliveryStatusAttributes_def updateOperation_def runSequentially_def
        feedbackAttributes_def attributeParams_def head_def keys_of_def values_of_def
        orUndefined_def capitalize_def toUpperCase_def setTopicAttributes_def
        throttlingClient_def updateCalls_def Promise_then_def Promise_resolve_def)
qed

section \<open>Properties of hydration\<close>

lemma onlyStateChanged_iff:
  "onlyStateChanged g g' \<longleftrightarrow>
     length g \<le> length g' \<and>
     (\<forall>y < length g. sync (g' ! y) = sync (g ! y) \<and>
        define_method (g' ! y) = define_method (g ! y) \<and>
        parent (g' ! y) = parent (g ! y) \<and> children (g' ! y) = children (g ! y))"
  by (auto simp: onlyStateChanged_def list_all_iff)

lemma onlyStateChanged_refl: "onlyStateChanged g g"
  by (simp add: onlyStateChanged_iff)

lemma onlyStateChanged_trans:
  "onlyStateChanged g g' \<Longrightarrow> onlyStateChanged g' g'' \<Longrightarrow> onlyStateChanged g g''"
  by (auto simp: onlyStateChanged_iff)

lemma reachable_prefix: "\<exists>more. reachable n h seen = seen @ more"
proof (induction n arbitrary: seen)
  case 0
  then show ?case by simp
next
  case (Suc n)
  from Suc [of "seen @ remdups (filter (\<lambda>x. x < length h \<and> x \<notin> set seen)
                   (concat (map (\<lambda>r. links_of (h ! r)) seen)))"]
  show ?case by auto
qed

lemma clone_shape:
  "\<exists>copy rest. clone h r = (h @ copy # rest, length h) \<and>
     sync copy = sync (h ! r) \<and> define_method copy = define_method (h ! r)"
proof -
  from reachable_prefix [of "length h" h "[r]"]
  obtain more where "reachable (length h) h [r] = r # more" by auto
  then show ?thesis
    by (simp add: clone_def relink_def Let_def)
qed

lemma hydrate_leaf:
  assumes "x < length g" and "define_method (g ! x) = None" and "sync (g ! x) ctx = Inr s"
  shows "\<exists>copies. defineComponent (Suc fuel) g (Ref x) st ctx =
           Some ((g @ copies)
                   [x := (g ! x)\<lparr>attachedState :=
                                   (if s \<noteq> Str ''removed'' then Some (length g) else st)\<rparr>],
                 Inr x)"
proof -
  from clone_shape [of g x] obtain copy rest where
    c: "clone g x = (g @ copy # rest, length g)" and s: "sync copy = sync (g ! x)"
    by blast
  with assms show ?thesis
    by (auto simp: isComponent_def hydrateAndDefine_def hydrateComponent_def nth_append
        intro!: exI [of _ "copy # rest"])
qed

lemma hydrate_leaf_props:
  assumes "x < length g" and "define_method (g ! x) = None" and "sync (g ! x) ctx = Inr s"
  shows "\<exists>g1. defineComponent (Suc fuel) g (Ref x) st ctx = Some (g1, Inr x) \<and>
           onlyStateChanged g g1 \<and>
           (\<forall>y < length g. y \<noteq> x \<longrightarrow> g1 ! y = g ! y) \<and>
           attachedState (g1 ! x) = (if s \<noteq> Str ''removed'' then Some (length g) else st)"
proof -
  from hydrate_leaf [OF assms, of fuel st] obtain copies where
    run: "defineComponent (Suc fuel) g (Ref x) st ctx =
           Some ((g @ copies)
                   [x := (g ! x)\<lparr>attachedState :=
                                   (if s \<noteq> Str ''removed'' then Some (length g) else st)\<rparr>],
                 Inr x)" ..
  from assms(1) show ?thesis
    unfolding run
    by (auto simp: onlyStateChanged_iff nth_list_update nth_append)
qed

lemma hydrate_leaves:
  assumes "\<forall>x \<in> set (map snd kxs).
             x < length g \<and> define_method (g ! x) = None \<and> (\<exists>s. sync (g ! x) ctx = Inr s)"
  shows "\<exists>g'. mapEntries (\<lambda>h' k child. defineComponent (Suc fuel) h' child (stf k) ctx) g
                 (map (\<lambda>(k, x). (k, Ref x)) kxs) = Some (g', Inr kxs) \<and>
           onlyStateChanged g g' \<and>
           (\<forall>y < length g. y \<notin> set (map snd kxs) \<longrightarrow> g' ! y = g ! y) \<and>
           (distinct (map snd kxs) \<longrightarrow>
              (\<forall>(k, x) \<in> set kxs.
                 if sync (g ! x) ctx = Inr (Str ''removed'')
                 then attachedState (g' ! x) = stf k
                 else \<exists>a. length g \<le> a \<and> attachedState (g' ! x) = Some a))"
  using assms
proof (induction kxs arbitrary: g)
  case Nil
  then show ?case by (simp add: onlyStateChanged_refl)
next
  case (Cons kx kxs)
  obtain k x where kx: "kx = (k, x)" by (cases kx)
  from Cons.prems kx obtain s where x: "x < length g" "define_method (g ! x) = None"
    "sync (g ! x) ctx = Inr s"
    by auto
  from hydrate_leaf_props [OF x, of fuel "stf k"] obtain g1 where
    first: "defineComponent (Suc fuel) g (Ref x) (stf k) ctx = Some (g1, Inr x)"
    and same1: "onlyStateChanged g g1"
    and other1: "\<forall>y < length g. y \<noteq> x \<longrightarrow> g1 ! y = g ! y"
    and state1: "attachedState (g1 ! x) = (if s \<noteq> Str ''removed'' then Some (length g) else stf k)"
    by blast
  have "\<forall>x \<in> set (map snd kxs).
          x < length g1 \<and> define_method (g1 ! x) = None \<and> (\<exists>s. sync (g1 ! x) ctx = Inr s)"
    using Cons.prems same1 by (auto simp: onlyStateChanged_iff)
  from Cons.IH [OF this] obtain g' where
    rest: "mapEntries (\<lambda>h' k child. defineComponent (Suc fuel) h' child (stf k) ctx) g1
             (map (\<lambda>(k, x). (k, Ref x)) kxs) = Some (g', Inr kxs)"
    and same2: "onlyStateChanged g1 g'"
    and other2: "\<forall>y < length g1. y \<notin> set (map snd kxs) \<longrightarrow> g' ! y = g1 ! y"
    and state2: "distinct (map snd kxs) \<longrightarrow>
              (\<forall>(k, x) \<in> set kxs.
                 if sync (g1 ! x) ctx = Inr (Str ''removed'')
                 then attachedState (g' ! x) = stf k
                 else \<exists>a. length g1 \<le> a \<and> attachedState (g' ! x) = Some a)"
    by blast
  from same1 have len: "length g \<le> length g1"
    by (simp add: onlyStateChanged_iff)
  have run: "mapEntries (\<lambda>h' k child. defineComponent (Suc fuel) h' child (stf k) ctx) g
               (map (\<lambda>(k, x). (k, Ref x)) (kx # kxs)) = Some (g', Inr (kx # kxs))"
    using first rest kx by simp
  have same: "onlyStateChanged g g'"
    using same1 same2 by (rule onlyStateChanged_trans)
  have other: "\<forall>y < length g. y \<notin> set (map snd (kx # kxs)) \<longrightarrow> g' ! y = g ! y"
    using other1 other2 len kx by auto
  have state: "distinct (map snd (kx # kxs)) \<longrightarrow>
              (\<forall>(k, x) \<in> set (kx # kxs).
                 if sync (g ! x) ctx = Inr (Str ''removed'')
                 then attachedState (g' ! x) = stf k
                 else \<exists>a. length g \<le> a \<and> attachedState (g' ! x) = Some a)"
  proof (intro impI ballI)
    fix e
    assume d: "distinct (map snd (kx # kxs))" and e: "e \<in> set (kx # kxs)"
    obtain k' x' where e': "e = (k', x')" by (cases e)
    show "case e of (k, x) \<Rightarrow>
                 if sync (g ! x) ctx = Inr (Str ''removed'')
                 then attachedState (g' ! x) = stf k
                 else \<exists>a. length g \<le> a \<and> attachedState (g' ! x) = Some a"
    proof (cases "e = kx")
      case True
      from d kx have "x \<notin> set (map snd kxs)" by simp
      with other2 x(1) len have "g' ! x = g1 ! x" by auto
      with state1 x(3) True kx show ?thesis by auto
    next
      case False
      with e have in_rest: "e \<in> set kxs" by simp
      with Cons.prems e' have "x' < length g" by force
      with same1 have "sync (g1 ! x') = sync (g ! x')"
        by (simp add: onlyStateChanged_iff)
      moreover from state2 d in_rest e'
      have "if sync (g1 ! x') ctx = Inr (Str ''removed'')
            then attachedState (g' ! x') = stf k'
            else \<exists>a. length g1 \<le> a \<and> attachedState (g' ! x') = Some a"
        by auto
      ultimately show ?thesis
        using len e' by (auto split: if_splits intro: order_trans)
    qed
  qed
  from run same other state show ?case by blast
qed

lemma values_of_array [simp]: "map snd (entries (Arr xs)) = xs"
  by (simp add: map_snd_zip)

lemma entries_map_collection:
  "entries (map_collection f rc) = map (\<lambda>(k, x). (k, f x)) (entries rc)"
  by (cases rc) (auto simp: zip_map2)

lemma map_resolve_refs:
  "map_defined resolve (Coll (map_collection Ref rc)) = Inr (map_collection Ref rc)"
  by (cases rc) (auto simp: resolve_def)

lemma filter_keeps_components:
  "\<forall>x \<in> set (map snd (entries rc)). P (Ref x) \<Longrightarrow>
   filter_collection P (map_collection Ref rc) = map_collection Ref rc"
  by (cases rc) (auto simp: filter_id_conv)

lemma sameShape_entries: "sameShape (map_collection f rc) (entries rc) = rc"
  by (cases rc) simp_all

lemma setParents_length [simp]: "length (setParents h childs component) = length h"
  unfolding setParents_def
  by (induction childs arbitrary: h) (auto split: dval.splits)

lemma setParents_snoc:
  "setParents h (childs @ [child]) component =
     (case child of
        Plain p \<Rightarrow> setParents h childs component
      | Ref c \<Rightarrow> (setParents h childs component)
                   [c := (setParents h childs component ! c)\<lparr>parent := Some component\<rparr>])"
  by (cases child) (simp_all add: setParents_def)

lemma setParents_parent:
  "Ref c \<in> set childs \<Longrightarrow> c < length h \<Longrightarrow>
   parent (setParents h childs component ! c) = Some component"
proof (induction childs rule: rev_induct)
  case Nil
  then show ?case by simp
next
  case (snoc child childs)
  show ?case
  proof (cases "child = Ref c")
    case True
    with snoc.prems show ?thesis
      by (simp add: setParents_snoc)
  next
    case False
    with snoc.prems have "Ref c \<in> set childs" by simp
    from snoc.IH [OF this snoc.prems(2)]
    have kept: "parent (setParents h childs component ! c) = Some component" .
    show ?thesis
    proof (cases child)
      case (Plain p)
      with kept show ?thesis
        by (simp add: setParents_snoc)
    next
      case (Ref d)
      with False have "d \<noteq> c" by simp
      with Ref kept show ?thesis
        by (simp add: setParents_snoc)
    qed
  qed
qed

lemma setParents_other:
  "Ref y \<notin> set childs \<Longrightarrow> setParents h childs component ! y = h ! y"
proof (induction childs rule: rev_induct)
  case Nil
  then show ?case by (simp add: setParents_def)
next
  case (snoc child childs)
  then show ?case
    by (cases child) (auto simp: setParents_snoc)
qed

lemma setParents_fields:
  "sync (setParents h childs component ! y) = sync (h ! y) \<and>
   define_method (setParents h childs component ! y) = define_method (h ! y) \<and>
   children (setParents h childs component ! y) = children (h ! y) \<and>
   attachedState (setParents h childs component ! y) = attachedState (h ! y)"
proof (induction childs rule: rev_induct)
  case Nil
  then show ?case by (simp add: setParents_def)
next
  case (snoc child childs)
  show ?case
  proof (cases child)
    case (Plain p)
    with snoc show ?thesis by (simp add: setParents_snoc)
  next
    case (Ref d)
    show ?thesis
    proof (cases "d = y \<and> d < length h")
      case True
      with Ref snoc show ?thesis by (simp add: setParents_snoc)
    next
      case False
      with Ref snoc show ?thesis
        by (cases "d = y") (simp_all add: setParents_snoc list_update_beyond)
    qed
  qed
qed

lemma attach_keeps_children:
  "children (h[c := (h ! c)\<lparr>attachedState := st\<rparr>] ! y) = children (h ! y)"
  by (cases "c < length h") (auto simp: nth_list_update list_update_beyond)

lemma get_children_same:
  "(\<And>y. children (h' ! y) = children (h ! y)) \<Longrightarrow> get_children h' k st = get_children h k st"
  by (cases st) (simp_all add: get_children_def)

lemma isObject_collection [simp]: "isObject cs"
  by (cases cs) (simp_all add: isObject_def)

text \<open>
  The hydration of a component whose \<open>define\<close> returns components that have no
  \<open>define\<close> of their own: it succeeds with two units of fuel, and this is the heap it
  leaves.
\<close>

lemma hydrate_node_with_leaves:
  fixes h :: "'ctx heap" and st :: "ref option"
  assumes c: "c < length h"
    and sy: "sync (h ! c) ctx = Inr status"
    and df: "define_method (h ! c) = Some definer"
    and ret: "definer ctx = Inr (Coll (map_collection Ref rc))"
    and leaves: "\<forall>x \<in> set (map snd (entries rc)).
                   x < length h \<and> define_method (h ! x) = None \<and>
                   (\<exists>s. sync (h ! x) ctx = Inr s)"
  defines "eff \<equiv> (if status = Str ''removed'' then st else Some (length h))"
  shows "\<exists>h'. defineComponent (Suc (Suc fuel)) h (Ref c) st ctx = Some (h', Inr c) \<and>
     children (h' ! c) = Some rc \<and>
     attachedState (h' ! c) = eff \<and>
     (\<forall>x \<in> set (map snd (entries rc)). parent (h' ! x) = Some c) \<and>
     (distinct (map snd (entries rc)) \<longrightarrow>
        (\<forall>(k, x) \<in> set (entries rc).
           if sync (h ! x) ctx = Inr (Str ''removed'')
           then attachedState (h' ! x) = get_children (fst (clone h c)) k eff
           else \<exists>a. length h \<le> a \<and> attachedState (h' ! x) = Some a)) \<and>
     (\<forall>a. length h \<le> a \<and> a < length (fst (clone h c)) \<longrightarrow> h' ! a = fst (clone h c) ! a) \<and>
     (\<forall>y < length h. y \<noteq> c \<and> y \<notin> set (map snd (entries rc)) \<longrightarrow> h' ! y = h ! y)"
proof -
  let ?xs = "map snd (entries rc)"
  from clone_shape [of h c] obtain copy rest where
    cl: "clone h c = (h @ copy # rest, length h)" and cs: "sync copy = sync (h ! c)"
    by blast
  define h1 where "h1 = h @ copy # rest"
  define h2 where "h2 = h1[c := (h1 ! c)\<lparr>attachedState := eff\<rparr>]"
  define h3 where "h3 = setParents h2 (map Ref ?xs) c"
  have h1c: "h1 ! c = h ! c" and len1: "length h < length h1"
    using c by (simp_all add: h1_def nth_append)
  have low1: "\<And>y. y < length h \<Longrightarrow> h1 ! y = h ! y"
    by (simp add: h1_def nth_append)
  have not_c: "c \<notin> set ?xs"
    using leaves df by auto
  have len2: "length h2 = length h1" and len3: "length h3 = length h1"
    by (simp_all add: h2_def h3_def)
  have h2_other: "\<And>y. y \<noteq> c \<Longrightarrow> h2 ! y = h1 ! y"
    by (simp add: h2_def)
  have h2c: "h2 ! c = (h ! c)\<lparr>attachedState := eff\<rparr>"
    using c len1 h1c by (simp add: h2_def)
  have h3_other: "\<And>y. y \<notin> set ?xs \<Longrightarrow> h3 ! y = h2 ! y"
    unfolding h3_def by (rule setParents_other) auto
  have h3_fields: "\<And>y. sync (h3 ! y) = sync (h2 ! y) \<and>
      define_method (h3 ! y) = define_method (h2 ! y) \<and>
      children (h3 ! y) = children (h2 ! y) \<and> attachedState (h3 ! y) = attachedState (h2 ! y)"
    unfolding h3_def by (rule setParents_fields)
  have h3_parent: "\<And>x. x \<in> set ?xs \<Longrightarrow> parent (h3 ! x) = Some c"
  proof -
    fix x assume x: "x \<in> set ?xs"
    with leaves len1 len2 have "x < length h2" by auto
    moreover from x have "Ref x \<in> set (map Ref ?xs)" by auto
    ultimately show "parent (h3 ! x) = Some c"
      unfolding h3_def by (intro setParents_parent)
  qed
  have kids: "\<And>y. children (h3 ! y) = children (h1 ! y)"
    using h3_fields attach_keeps_children [of h1 c eff] by (simp add: h2_def)
  have stf: "\<And>k. get_children h3 k eff = get_children h1 k eff"
    by (rule get_children_same) (rule kids)
  have leaves3: "\<forall>x \<in> set (map snd (entries rc)).
      x < length h3 \<and> define_method (h3 ! x) = None \<and> (\<exists>s. sync (h3 ! x) ctx = Inr s)"
  proof
    fix x assume x: "x \<in> set (map snd (entries rc))"
    with leaves have xl: "x < length h" and xd: "define_method (h ! x) = None"
      and xs: "\<exists>s. sync (h ! x) ctx = Inr s"
      by auto
    from x not_c have "x \<noteq> c" by auto
    with xl have "h2 ! x = h ! x"
      by (simp add: h2_other low1)
    with h3_fields [of x] xl xd xs len1 len3
    show "x < length h3 \<and> define_method (h3 ! x) = None \<and> (\<exists>s. sync (h3 ! x) ctx = Inr s)"
      by simp
  qed
  from hydrate_leaves [OF leaves3, of fuel "\<lambda>k. get_children h3 k eff"] obtain h4 where
    run4: "mapEntries (\<lambda>h' k child. defineComponent (Suc fuel) h' child (get_children h3 k eff) ctx)
             h3 (map (\<lambda>(k, x). (k, Ref x)) (entries rc)) = Some (h4, Inr (entries rc))"
    and same4: "onlyStateChanged h3 h4"
    and other4: "\<forall>y < length h3. y \<notin> set ?xs \<longrightarrow> h4 ! y = h3 ! y"
    and state4: "distinct ?xs \<longrightarrow>
              (\<forall>(k, x) \<in> set (entries rc).
                 if sync (h3 ! x) ctx = Inr (Str ''removed'')
                 then attachedState (h4 ! x) = get_children h3 k eff
                 else \<exists>a. length h3 \<le> a \<and> attachedState (h4 ! x) = Some a)"
    by blast
  define h' where "h' = h4[c := (h4 ! c)\<lparr>children := Some rc\<rparr>]"
  from same4 have len4: "length h3 \<le> length h4"
    and fields4: "\<And>y. y < length h3 \<Longrightarrow> parent (h4 ! y) = parent (h3 ! y)"
    by (simp_all add: onlyStateChanged_iff)
  have valid: "\<forall>x \<in> set (map snd (entries rc)). isComponent h2 (Ref x)"
    using leaves len1 len2 by (auto simp: isComponent_def)
  have eff_alt: "(if status \<noteq> Str ''removed'' then Some (length h) else st) = eff"
    by (simp add: eff_def)
  have "sync ((h @ copy # rest) ! length h) ctx = Inr status"
    using cs sy by simp
  then have step1: "defineComponent (Suc (Suc fuel)) h (Ref c) st ctx =
      hydrateAndDefine (\<lambda>h' child st'. defineComponent (Suc fuel) h' child st' ctx) h1 c eff ctx"
    using c cl eff_alt
    by (subst defineComponent.simps)
       (simp add: isComponent_def h1_def del: defineComponent.simps)
  have d2: "define_method (h2 ! c) = Some definer"
    using h2c df by simp
  have m: "map_defined resolve (or_else (Coll (map_collection Ref rc)) (Coll (Obj []))) =
      Inr (map_collection Ref rc)"
    by (simp add: or_else_def map_resolve_refs)
  have f: "filter_collection (isComponent h2) (map_collection Ref rc) = map_collection Ref rc"
    by (rule filter_keeps_components) (rule valid)
  have e: "entries (map_collection Ref rc) = map (\<lambda>(k, x). (k, Ref x)) (entries rc)"
    by (rule entries_map_collection)
  have vs: "map snd (map (\<lambda>(k, x). (k, Ref x)) (entries rc)) = map Ref ?xs"
    by (simp add: comp_def case_prod_unfold)
  have step2: "hydrateAndDefine (\<lambda>h' child st'. defineComponent (Suc fuel) h' child st' ctx)
      h1 c eff ctx = Some (h', Inr c)"
    unfolding hydrateAndDefine_def hydrateComponent_def prod.case h2_def [symmetric]
    by (simp only: d2 option.case ret sum.case m f Let_def isObject_collection if_True e vs
        h3_def [symmetric] run4 prod.case sameShape_entries h'_def)
  from step1 step2
  have run: "defineComponent (Suc (Suc fuel)) h (Ref c) st ctx = Some (h', Inr c)"
    by simp
  have c4: "c < length h4"
    using c len1 len3 len4 by simp
  have h'_other: "\<And>y. y \<noteq> c \<Longrightarrow> h' ! y = h4 ! y"
    by (simp add: h'_def)
  have kids_c: "children (h' ! c) = Some rc"
    using c4 by (simp add: h'_def)
  have "h4 ! c = h3 ! c"
    using other4 not_c c len1 len3 by simp
  then have state_c: "attachedState (h' ! c) = eff"
    using c4 h3_fields [of c] h2c by (simp add: h'_def)
  have parents: "\<forall>x \<in> set ?xs. parent (h' ! x) = Some c"
  proof
    fix x assume x: "x \<in> set ?xs"
    with not_c have "x \<noteq> c" by auto
    moreover from x leaves len1 len3 have "x < length h3" by auto
    ultimately show "parent (h' ! x) = Some c"
      using h3_parent [OF x] by (simp add: h'_other fields4)
  qed
  have states: "distinct ?xs \<longrightarrow>
        (\<forall>(k, x) \<in> set (entries rc).
           if sync (h ! x) ctx = Inr (Str ''removed'')
           then attachedState (h' ! x) = get_children (fst (clone h c)) k eff
           else \<exists>a. length h \<le> a \<and> attachedState (h' ! x) = Some a)"
  proof (intro impI ballI)
    fix e assume d: "distinct ?xs" and e: "e \<in> set (entries rc)"
    obtain k x where e': "e = (k, x)" by (cases e)
    with e have x: "x \<in> set ?xs" by force
    with not_c have xc: "x \<noteq> c" by auto
    from x leaves have "x < length h" by auto
    with xc have "h2 ! x = h ! x"
      by (simp add: h2_other low1)
    with h3_fields [of x] have "sync (h3 ! x) = sync (h ! x)" by simp
    moreover from state4 d e e'
    have "if sync (h3 ! x) ctx = Inr (Str ''removed'')
          then attachedState (h4 ! x) = get_children h3 k eff
          else \<exists>a. length h3 \<le> a \<and> attachedState (h4 ! x) = Some a"
      by auto
    ultimately
    show "case e of (k, x) \<Rightarrow>
           if sync (h ! x) ctx = Inr (Str ''removed'')
           then attachedState (h' ! x) = get_children (fst (clone h c)) k eff
           else \<exists>a. length h \<le> a \<and> attachedState (h' ! x) = Some a"
      using e' xc len1 len3
      by (auto simp: h'_other stf cl h1_def split: if_splits)
  qed
  have copies: "\<forall>a. length h \<le> a \<and> a < length (fst (clone h c)) \<longrightarrow> h' ! a = fst (clone h c) ! a"
  proof (intro allI impI)
    fix a assume a: "length h \<le> a \<and> a < length (fst (clone h c))"
    with c have ac: "a \<noteq> c" by simp
    from a leaves have ax: "a \<notin> set ?xs" by auto
    from a have "a < length h3"
      by (simp add: cl len3 h1_def)
    with other4 ax have "h4 ! a = h3 ! a" by simp
    with ac ax show "h' ! a = fst (clone h c) ! a"
      by (simp add: h'_other h3_other h2_other cl h1_def)
  qed
  have others: "\<forall>y < length h. y \<noteq> c \<and> y \<notin> set ?xs \<longrightarrow> h' ! y = h ! y"
  proof (intro allI impI)
    fix y assume y: "y < length h" and yo: "y \<noteq> c \<and> y \<notin> set ?xs"
    from y len1 len3 have "y < length h3" by simp
    with other4 yo have "h4 ! y = h3 ! y" by simp
    with y yo show "h' ! y = h ! y"
      by (simp add: h'_other h3_other h2_other low1)
  qed
  from run kids_c state_c parents states copies others show ?thesis
    by blast
qed





text \<open>
  When \<open>define\<close> returns a string that is not empty, \<open>map\<close> goes through its
  characters, \<open>filter\<close> leaves none of them, and the empty array that results passes the
  check of line 45: hydration succeeds with no children.
\<close>

lemma string_definition_resolves:
  fixes h :: "'ctx heap"
  assumes "c < length h"
    and "sync (h ! c) ctx = Inr status"
    and "define_method (h ! c) = Some definer"
    and "definer ctx = Inr (Single (Str s))"
    and "s \<noteq> []"
  shows "\<exists>h'. defineComponent (Suc fuel) h (Ref c) st ctx = Some (h', Inr c) \<and>
     children (h' ! c) = Some (Arr [])"
proof -
  from clone_shape [of h c] obtain copy rest where
    cl: "clone h c = (h @ copy # rest, length h)" and cs: "sync copy = sync (h ! c)"
    by blast
  have "filter (isComponent H) (map (\<lambda>ch. resolve (Plain (Str [ch]))) s) = []" for H :: "'ctx heap"
    by (simp add: filter_empty_conv isComponent_def resolve_def)
  with assms cl cs show ?thesis
    by (auto simp: isComponent_def hydrateAndDefine_def hydrateComponent_def or_else_def
        setParents_def nth_append nth_list_update)
qed

lemmas hydration_defs =
  isComponent_def clone_def links_of_def redirect_def relink_def hydrateAndDefine_def
  hydrateComponent_def or_else_def resolve_def isObject_def setParents_def get_children_def
  Let_def leafComponent_def definingComponent_def links_def outcomeLinks_def









lemma mapEntries_failure:
  "mapEntries f h es = Some (h', Inl e) \<Longrightarrow> \<exists>g k x g'. f g k x = Some (g', Inl e)"
proof (induction es arbitrary: h)
  case Nil
  then show ?case by simp
next
  case (Cons kx es)
  obtain k x where kx: "kx = (k, x)" by (cases kx)
  show ?case
  proof (cases "f h k x")
    case None
    with Cons.prems kx show ?thesis by simp
  next
    case (Some out)
    obtain h1 r1 where out: "out = (h1, r1)" by (cases out)
    show ?thesis
    proof (cases r1)
      case (Inl e1)
      with Cons.prems kx Some out show ?thesis by auto
    next
      case (Inr y)
      with Cons.prems kx Some out have "mapEntries f h1 es = Some (h', Inl e)"
        by (auto split: option.splits sum.splits)
      then show ?thesis by (rule Cons.IH)
    qed
  qed
qed

lemma map_defined_failure: "map_defined f d = Inl e \<Longrightarrow> \<exists>p. e = NotIterable p"
  by (induction f d rule: map_defined.induct) auto

text \<open>
  The check of line 45 comes after \<open>map\<close> and \<open>filter\<close>, whose result is a collection
  whenever there is one: no hydration fails with the error of line 52.
\<close>

lemma line_52_is_never_reached:
  "defineComponent fuel h v st ctx \<noteq> Some (h', Inl (BadDefinition cs r))"
proof (induction fuel arbitrary: h v st h')
  case 0
  then show ?case by simp
next
  case (Suc fuel)
  show ?case
  proof
    assume bad: "defineComponent (Suc fuel) h v st ctx = Some (h', Inl (BadDefinition cs r))"
    then obtain c where v: "v = Ref c" and c: "isComponent h v"
      by (auto split: bool.splits dval.splits)
    obtain h1 cc where cl: "clone h c = (h1, cc)" by (cases "clone h c")
    from bad v c cl obtain status st' where
      hyd: "hydrateAndDefine (\<lambda>h' child st'. defineComponent fuel h' child st' ctx) h1 c st' ctx =
              Some (h', Inl (BadDefinition cs r))"
      by (auto split: sum.splits)
    let ?h2 = "h1[c := (h1 ! c)\<lparr>attachedState := st'\<rparr>]"
    from hyd obtain definer returned mapped where
      m: "map_defined resolve (or_else returned (Coll (Obj []))) = Inr mapped"
      and run: "mapEntries
                  (\<lambda>h' k child. defineComponent fuel h' child
                     (get_children
                        (setParents ?h2
                           (map snd (entries (filter_collection (isComponent ?h2) mapped))) c) k st')
                     ctx)
                  (setParents ?h2
                     (map snd (entries (filter_collection (isComponent ?h2) mapped))) c)
                  (entries (filter_collection (isComponent ?h2) mapped)) =
                Some (h', Inl (BadDefinition cs r))"
      by (auto simp: hydrateAndDefine_def hydrateComponent_def Let_def
          dest: map_defined_failure split: option.splits sum.splits)
    from mapEntries_failure [OF run] Suc.IH show False
      by blast
  qed
qed

end
